theory Spec2Isabelle
  imports Complex_Main "HOL-Library.Product_Lexorder" "HOL-Library.List_Lexorder"
    "HOL-Library.Char_ord" "HOL-Library.Multiset" "HOL-Library.Log_Nat"
begin

text \<open>
  A shallow embedding of the camera dashboard of \<^verbatim>\<open>src/index.js\<close> (an Express
  application over a document store and a storage bucket) and of its two variants in
  \<^verbatim>\<open>src/unnamed/part_000\<close>: the request handlers as functions from the request and
  the state of the store to the response and the new state, with every exception as a
  value.
\<close>

section \<open>JavaScript values\<close>

text \<open>
  The handlers of \<^verbatim>\<open>index.js\<close> receive untyped request data. A field of a request
  body is modelled as a JavaScript scalar; arrays and objects as field values are outside
  this model. A string is a list of code units below 256. A finite number is a
  rational; the numbers that \<^verbatim>\<open>parseFloat\<close> and \<^verbatim>\<open>parseInt\<close> return are rounded to
  the binary64 format, and \<open>-0\<close> is \<open>0\<close>.
\<close>

datatype jsnum = NaN | PosInf | NegInf | Fin rat

datatype jsval = JUndefined | JNull | JBool bool | JNum jsnum | JStr string

datatype js_error = SyntaxError | ReferenceError | TypeError | MongoError | BSONError | StorageError

text \<open>
  What the runtime, the drivers and the store compute and this model does not: the
  decimal text of a finite number (\<^verbatim>\<open>Number::toString\<close>); the instant that
  \<^verbatim>\<open>new Date(v)\<close> denotes once the driver has stored it (milliseconds since the
  epoch); and the reading of a search pattern that uses more than the syntax modelled
  below: the error with which \<^verbatim>\<open>new RegExp\<close> or the store refuses it, or else the
  strings it matches. They are parameters of every definition that needs them.
\<close>

record platform =
  number_to_string :: "rat \<Rightarrow> string"
  new_Date :: "jsval \<Rightarrow> int"
  regexp_beyond :: "string \<Rightarrow> js_error + (string \<Rightarrow> bool)"

text \<open>\<^verbatim>\<open>!v\<close> is \<open>\<not> truthy v\<close>.\<close>

fun truthy :: "jsval \<Rightarrow> bool" where
  "truthy JUndefined = False"
| "truthy JNull = False"
| "truthy (JBool b) = b"
| "truthy (JNum n) = (n \<noteq> NaN \<and> n \<noteq> Fin 0)"
| "truthy (JStr s) = (s \<noteq> [])"

fun ToString :: "platform \<Rightarrow> jsval \<Rightarrow> string" where
  "ToString P JUndefined = ''undefined''"
| "ToString P JNull = ''null''"
| "ToString P (JBool b) = (if b then ''true'' else ''false'')"
| "ToString P (JNum NaN) = ''NaN''"
| "ToString P (JNum PosInf) = ''Infinity''"
| "ToString P (JNum NegInf) = ''-Infinity''"
| "ToString P (JNum (Fin q)) = number_to_string P q"
| "ToString P (JStr s) = s"

subsection \<open>Rounding to binary64\<close>

definition pow2 :: "int \<Rightarrow> rat" where
  "pow2 k = (if 0 \<le> k then 2 ^ nat k else 1 / 2 ^ nat (- k))"

text \<open>The exponent of a positive rational: the \<open>e\<close> with \<open>2\<^sup>e \<le> q < 2\<^sup>e\<^sup>+\<^sup>1\<close>.\<close>

definition floor_log2 :: "rat \<Rightarrow> int" where
  "floor_log2 q =
     (let e = bitlen (fst (quotient_of q)) - bitlen (snd (quotient_of q)) in
      if q < pow2 e then e - 1 else e)"

definition round_half_even :: "rat \<Rightarrow> int" where
  "round_half_even x =
     (let f = \<lfloor>x\<rfloor>; r = x - of_int f in
      if r < 1 / 2 then f
      else if 1 / 2 < r then f + 1
      else if even f then f
      else f + 1)"

text \<open>
  The binary64 number nearest to a rational, ties to the even significand: 53 bits of
  significand, the least exponent -1022 (below it the numbers are subnormal, and the
  smallest round to 0), and infinity from \<open>2\<^sup>1\<^sup>0\<^sup>2\<^sup>4\<close> on.
\<close>

definition binary64 :: "rat \<Rightarrow> jsnum" where
  "binary64 q =
     (if q = 0 then Fin 0
      else
        let a = \<bar>q\<bar>;
            e = max (floor_log2 a) (- 1022);
            u = pow2 (e - 52);
            v = of_int (round_half_even (a / u)) * u
        in if pow2 1024 \<le> v then (if 0 < q then PosInf else NegInf)
           else Fin (if 0 < q then v else - v))"

subsection \<open>\<^verbatim>\<open>parseFloat\<close> and \<^verbatim>\<open>parseInt\<close>\<close>

definition is_digit :: "char \<Rightarrow> bool" where
  "is_digit c \<longleftrightarrow> c \<in> set ''0123456789''"

definition is_hex_digit :: "char \<Rightarrow> bool" where
  "is_hex_digit c \<longleftrightarrow> c \<in> set ''0123456789abcdefABCDEF''"

definition hex_digit_val :: "char \<Rightarrow> int" where
  "hex_digit_val c =
     (if c \<in> set ''0123456789'' then of_char c - 48
      else if c \<in> set ''abcdef'' then of_char c - 87
      else of_char c - 55)"

definition digits_val :: "int \<Rightarrow> string \<Rightarrow> int" where
  "digits_val radix ds = foldl (\<lambda>a c. radix * a + hex_digit_val c) 0 ds"

text \<open>White space and line terminators that \<^verbatim>\<open>TrimString\<close> removes, below 256.\<close>

definition StrWhiteSpaceChar :: "char \<Rightarrow> bool" where
  "StrWhiteSpaceChar c \<longleftrightarrow> (of_char c :: int) \<in> set [9, 10, 11, 12, 13, 32, 160]"

definition trim_start :: "string \<Rightarrow> string" where
  "trim_start s = dropWhile StrWhiteSpaceChar s"

definition exponent_digits :: "string \<Rightarrow> int" where
  "exponent_digits s = digits_val 10 (takeWhile is_digit s)"

text \<open>
  The value of the \<^verbatim>\<open>ExponentPart\<close> that starts the string; 0 when there is none
  (an \<^verbatim>\<open>e\<close> with no digit after it is not part of the literal).
\<close>

definition scan_exponent :: "string \<Rightarrow> int" where
  "scan_exponent s =
     (case s of
        [] \<Rightarrow> 0
      | c # r \<Rightarrow>
          if c = CHR ''e'' \<or> c = CHR ''E'' then
            (case r of
               [] \<Rightarrow> 0
             | d # r' \<Rightarrow>
                 if d = CHR ''+'' then exponent_digits r'
                 else if d = CHR ''-'' then - exponent_digits r'
                 else exponent_digits r)
          else 0)"

definition scale10 :: "int \<Rightarrow> int \<Rightarrow> rat" where
  "scale10 m e = (if 0 \<le> e then of_int m * 10 ^ nat e else of_int m / 10 ^ nat (- e))"

text \<open>
  The longest prefix that is a \<^verbatim>\<open>StrUnsignedDecimalLiteral\<close>, as a number: its
  decimal value, rounded.
\<close>

definition unsigned_decimal :: "string \<Rightarrow> jsnum" where
  "unsigned_decimal s =
     (if take 8 s = ''Infinity'' then PosInf
      else
        let ip = takeWhile is_digit s; r = dropWhile is_digit s in
        (case r of
           [] \<Rightarrow> if ip = [] then NaN else binary64 (scale10 (digits_val 10 ip) 0)
         | c # r' \<Rightarrow>
             if c = CHR ''.'' then
               (let fp = takeWhile is_digit r'; r'' = dropWhile is_digit r' in
                if ip = [] \<and> fp = [] then NaN
                else binary64 (scale10 (digits_val 10 (ip @ fp)) (scan_exponent r'' - int (length fp))))
             else if ip = [] then NaN
             else binary64 (scale10 (digits_val 10 ip) (scan_exponent r))))"

fun negate :: "jsnum \<Rightarrow> jsnum" where
  "negate NaN = NaN"
| "negate PosInf = NegInf"
| "negate NegInf = PosInf"
| "negate (Fin q) = Fin (- q)"

definition parseFloat_string :: "string \<Rightarrow> jsnum" where
  "parseFloat_string s =
     (case trim_start s of
        [] \<Rightarrow> NaN
      | c # r \<Rightarrow>
          if c = CHR ''+'' then unsigned_decimal r
          else if c = CHR ''-'' then negate (unsigned_decimal r)
          else unsigned_decimal (c # r))"

definition parseFloat :: "platform \<Rightarrow> jsval \<Rightarrow> jsnum" where
  "parseFloat P v = parseFloat_string (ToString P v)"

text \<open>
  \<^verbatim>\<open>parseInt\<close> with no radix: base 16 after \<^verbatim>\<open>0x\<close>, base 10 otherwise; the
  integer that the digits denote, rounded.
\<close>

definition unsigned_integer :: "string \<Rightarrow> jsnum" where
  "unsigned_integer u =
     (if take 2 u = ''0x'' \<or> take 2 u = ''0X'' then
        (let z = takeWhile is_hex_digit (drop 2 u) in
         if z = [] then NaN else binary64 (of_int (digits_val 16 z)))
      else
        (let z = takeWhile is_digit u in
         if z = [] then NaN else binary64 (of_int (digits_val 10 z))))"

definition parseInt_string :: "string \<Rightarrow> jsnum" where
  "parseInt_string s =
     (case trim_start s of
        [] \<Rightarrow> NaN
      | c # r \<Rightarrow>
          if c = CHR ''+'' then unsigned_integer r
          else if c = CHR ''-'' then negate (unsigned_integer r)
          else unsigned_integer (c # r))"

definition parseInt :: "platform \<Rightarrow> jsval \<Rightarrow> jsnum" where
  "parseInt P v = parseInt_string (ToString P v)"

section \<open>The detection store\<close>

text \<open>
  A document of the collection \<^verbatim>\<open>detections\<close>, as \<^verbatim>\<open>insertOne\<close> writes it.
  \<open>det_id\<close> is the field \<^verbatim>\<open>_id\<close>: the 96-bit ObjectId as a number. The two dates
  are milliseconds since the epoch.
\<close>

type_synonym ObjectId = int

record detection =
  det_id :: ObjectId
  cameraId :: jsval
  videoId :: jsval
  item :: jsval
  confidence :: jsnum
  timestamp :: int
  timestampSec :: jsnum
  createdAt :: int

text \<open>
  The global \<^verbatim>\<open>db\<close>: the documents in their natural order, and whether the server
  answers. Every operation on an unreachable server throws.
\<close>

record database =
  detections :: "detection list"
  reachable :: bool

text \<open>
  \<^verbatim>\<open>find(q).sort(k).toArray()\<close>. The store leaves the order of documents with equal
  keys open; the model keeps their natural order.
\<close>

definition find_sort_toArray ::
  "database \<Rightarrow> (detection \<Rightarrow> bool) \<Rightarrow> (detection \<Rightarrow> 'k::linorder) \<Rightarrow> js_error + detection list" where
  "find_sort_toArray d q k =
     (if reachable d then Inr (sort_key k (filter q (detections d))) else Inl MongoError)"

text \<open>\<^verbatim>\<open>find().sort({ timestamp: -1 }).toArray()\<close>\<close>

definition listAll :: "database \<Rightarrow> js_error + detection list" where
  "listAll d = find_sort_toArray d (\<lambda>_. True) (\<lambda>x. - timestamp x)"

text \<open>
  \<^verbatim>\<open>insertOne(doc)\<close>: the driver has put a new ObjectId into \<open>doc\<close>; the unique index
  on \<^verbatim>\<open>_id\<close> refuses a second document with the same one.
\<close>

definition insertOne :: "database \<Rightarrow> detection \<Rightarrow> js_error + database" where
  "insertOne d doc =
     (if reachable d then
        (if det_id doc \<in> set (map det_id (detections d)) then Inl MongoError
         else Inr (d\<lparr>detections := detections d @ [doc]\<rparr>))
      else Inl MongoError)"

section \<open>Responses\<close>

record video =
  v_videoId :: jsval
  v_cameraId :: jsval
  v_detections :: "detection list"

datatype json = JV jsval | JArray "jsval list" | JDoc detection

datatype local_value = LVal jsval | LDetections "detection list" | LVideos "video list"

text \<open>
  What a handler does with a request: \<^verbatim>\<open>res.render(view, locals)\<close>,
  \<^verbatim>\<open>res.redirect(url)\<close>, \<^verbatim>\<open>res.status(n).json(body)\<close> (200 when no status is
  set); or the handler's promise is rejected, the error leaving the handler; or the
  request is one this model does not describe.
\<close>

datatype outcome =
    Render string "(string \<times> local_value) list"
  | Redirect string
  | Json nat "(string \<times> json) list"
  | Rejected js_error
  | NotModelled

section \<open>\<^verbatim>\<open>POST /api/detection\<close>\<close>

record body =
  body_cameraId :: jsval
  body_videoId :: jsval
  body_item :: jsval
  body_confidence :: jsval
  body_timestamp :: jsval
  body_timestampSec :: jsval

text \<open>
  \<open>now\<close> is what \<^verbatim>\<open>new Date()\<close> reads, \<open>oid\<close> the ObjectId the driver generates.
  \<^verbatim>\<open>req.body\<close> is the object that \<^verbatim>\<open>express.json\<close> or \<^verbatim>\<open>express.urlencoded\<close>
  has parsed (an empty object when the request has no body); a field missing from it is
  \<open>JUndefined\<close>.
\<close>

definition post_api_detection ::
  "platform \<Rightarrow> int \<Rightarrow> ObjectId \<Rightarrow> database \<Rightarrow> body \<Rightarrow> outcome \<times> database" where
  "post_api_detection P now oid d b =
     (if \<not> truthy (body_cameraId b) \<or> \<not> truthy (body_videoId b) \<or> \<not> truthy (body_item b)
         \<or> \<not> truthy (body_confidence b) \<or> \<not> truthy (body_timestamp b)
         \<or> body_timestampSec b = JUndefined
      then (Json 400 [(''error'', JV (JStr ''Missing required fields''))], d)
      else
        (case insertOne d
           \<lparr>det_id = oid,
            cameraId = body_cameraId b,
            videoId = body_videoId b,
            item = body_item b,
            confidence = parseFloat P (body_confidence b),
            timestamp = new_Date P (body_timestamp b),
            timestampSec = parseInt P (body_timestampSec b),
            createdAt = now\<rparr> of
           Inr d' \<Rightarrow>
             (Json 200 [(''success'', JV (JBool True)), (''message'', JV (JStr ''Detection logged''))], d')
         | Inl e \<Rightarrow> (Json 500 [(''error'', JV (JStr ''Failed to log detection''))], d)))"

section \<open>Regular expressions\<close>

text \<open>
  \<^verbatim>\<open>new RegExp(item, 'i')\<close> reads the search text as a pattern, and the store matches
  the pattern against the item of each document. The patterns built from pattern
  characters, \<^verbatim>\<open>.\<close>, the quantifiers \<^verbatim>\<open>*\<close>, \<^verbatim>\<open>+\<close>, \<^verbatim>\<open>?\<close> (each also
  lazy), \<^verbatim>\<open>|\<close> and plain groups are read and matched here. A pattern with an
  assertion, an escape, a character class, a brace or a group specifier is read and
  matched by the platform.
\<close>

datatype regex = Empty | Chr char | Dot | Seq regex regex | Alt regex regex | Star regex

text \<open>
  Case folding under the flag \<^verbatim>\<open>i\<close>, on the code units below 256: the letters a
  to z, and the letters U+00E0 to U+00FE other than the division sign U+00F7, fold to
  their capitals, 32 below. The letters U+00B5, U+00DF and U+00FF have no single capital
  below 256 and fold to themselves.
\<close>

definition Canonicalize :: "char \<Rightarrow> char" where
  "Canonicalize c =
     (let n = of_char c :: int in
      if 97 \<le> n \<and> n \<le> 122 \<or> 224 \<le> n \<and> n \<le> 254 \<and> n \<noteq> 247 then char_of (n - 32)
      else c)"

text \<open>
  \<open>remainders r s\<close>: what is left of \<open>s\<close> after each way of matching \<open>r\<close> at its
  start. The store's engine does the matching: \<^verbatim>\<open>.\<close> is any character but the line
  feed. A repetition that consumes nothing is not taken again.
\<close>

function remainders :: "regex \<Rightarrow> string \<Rightarrow> string list" where
  "remainders Empty s = [s]"
| "remainders (Chr c) s =
     (case s of [] \<Rightarrow> [] | x # xs \<Rightarrow> if Canonicalize x = Canonicalize c then [xs] else [])"
| "remainders Dot s =
     (case s of [] \<Rightarrow> [] | x # xs \<Rightarrow> if x = CHR 0x0A then [] else [xs])"
| "remainders (Seq a b) s = concat (map (remainders b) (remainders a s))"
| "remainders (Alt a b) s = remainders a s @ remainders b s"
| "remainders (Star a) s =
     s # concat (map (remainders (Star a)) (filter (\<lambda>t. length t < length s) (remainders a s)))"
  by pat_completeness auto
termination
  by (relation "measures [\<lambda>(r, s). size r, \<lambda>(r, s). length s]") auto

fun tails :: "'a list \<Rightarrow> 'a list list" where
  "tails [] = [[]]"
| "tails (x # xs) = (x # xs) # tails xs"

text \<open>The pattern matches somewhere in the string.\<close>

definition regex_test :: "regex \<Rightarrow> string \<Rightarrow> bool" where
  "regex_test r s = list_ex (\<lambda>t. remainders r t \<noteq> []) (tails s)"

subsection \<open>Reading a pattern\<close>

datatype quantifiable = NoTerm | Atom | Quantified | QuantifiedLazy

text \<open>
  An open group (or the whole pattern): its finished alternatives, the terms of the
  alternative being read (latest first), and what a quantifier would now apply to.
\<close>

record frame =
  alternatives :: "regex list"
  rterms :: "regex list"
  last_term :: quantifiable

definition empty_frame :: frame where
  "empty_frame = \<lparr>alternatives = [], rterms = [], last_term = NoTerm\<rparr>"

definition seq_of :: "regex list \<Rightarrow> regex" where
  "seq_of ts = foldr Seq ts Empty"

fun alt_of :: "regex list \<Rightarrow> regex" where
  "alt_of [] = Empty"
| "alt_of [r] = r"
| "alt_of (r # rs) = Alt r (alt_of rs)"

definition close_frame :: "frame \<Rightarrow> regex" where
  "close_frame f = alt_of (alternatives f @ [seq_of (rev (rterms f))])"

definition push_term :: "regex \<Rightarrow> frame \<Rightarrow> frame" where
  "push_term r f = f\<lparr>rterms := r # rterms f, last_term := Atom\<rparr>"

definition quantify :: "char \<Rightarrow> regex \<Rightarrow> regex" where
  "quantify c r =
     (if c = CHR ''*'' then Star r
      else if c = CHR ''+'' then Seq r (Star r)
      else Alt r Empty)"

text \<open>
  One pass over the pattern. A quantifier with nothing to repeat, a \<^verbatim>\<open>)\<close> with no
  open group and a group left open at the end are syntax errors.
\<close>

fun parse_chars :: "string \<Rightarrow> frame \<Rightarrow> frame list \<Rightarrow> js_error + regex" where
  "parse_chars [] f stack = (if stack = [] then Inr (close_frame f) else Inl SyntaxError)"
| "parse_chars (c # cs) f stack =
     (if c = CHR ''('' then parse_chars cs empty_frame (f # stack)
      else if c = CHR '')'' then
        (case stack of
           [] \<Rightarrow> Inl SyntaxError
         | g # stack' \<Rightarrow> parse_chars cs (push_term (close_frame f) g) stack')
      else if c = CHR ''|'' then
        parse_chars cs
          \<lparr>alternatives = alternatives f @ [seq_of (rev (rterms f))], rterms = [],
           last_term = NoTerm\<rparr> stack
      else if c \<in> set ''*+?'' then
        (case last_term f of
           Atom \<Rightarrow>
             (case rterms f of
                [] \<Rightarrow> Inl SyntaxError
              | t # ts \<Rightarrow>
                  parse_chars cs (f\<lparr>rterms := quantify c t # ts, last_term := Quantified\<rparr>) stack)
         | Quantified \<Rightarrow>
             if c = CHR ''?'' then parse_chars cs (f\<lparr>last_term := QuantifiedLazy\<rparr>) stack
             else Inl SyntaxError
         | _ \<Rightarrow> Inl SyntaxError)
      else if c = CHR ''.'' then parse_chars cs (push_term Dot f) stack
      else parse_chars cs (push_term (Chr c) f) stack)"

text \<open>The characters with a meaning of their own in a pattern.\<close>

definition is_syntax_char :: "char \<Rightarrow> bool" where
  "is_syntax_char c \<longleftrightarrow> c \<in> set (CHR 0x5C # ''^$.*+?()[]{}|'')"

fun group_specifier :: "string \<Rightarrow> bool" where
  "group_specifier (a # b # cs) = (a = CHR ''('' \<and> b = CHR ''?'' \<or> group_specifier (b # cs))"
| "group_specifier _ = False"

text \<open>The pattern uses more than the syntax read by \<open>parse_chars\<close>.\<close>

definition beyond_fragment :: "string \<Rightarrow> bool" where
  "beyond_fragment s \<longleftrightarrow>
     list_ex (\<lambda>c. c \<in> set (CHR 0x5C # ''^$[]{}'')) s \<or> group_specifier s"

text \<open>
  \<^verbatim>\<open>new RegExp(item, 'i')\<close> as the query uses it: the error thrown for a text that is
  not a pattern, or the test that tells which strings the pattern matches.
\<close>

definition new_RegExp :: "platform \<Rightarrow> string \<Rightarrow> js_error + (string \<Rightarrow> bool)" where
  "new_RegExp P s =
     (if beyond_fragment s then regexp_beyond P s
      else (case parse_chars s empty_frame [] of Inl e \<Rightarrow> Inl e | Inr r \<Rightarrow> Inr (regex_test r)))"

section \<open>\<^verbatim>\<open>GET /search\<close>\<close>

text \<open>
  The three variants of the application: \<^verbatim>\<open>src/index.js\<close>, and the first and the
  second file of \<^verbatim>\<open>src/unnamed/part_000\<close>.
\<close>

datatype variant = Index_js | Part_000_first | Part_000_second

text \<open>A parameter of the query string: absent, or a string.\<close>

definition query_value :: "string option \<Rightarrow> jsval" where
  "query_value q = (case q of None \<Rightarrow> JUndefined | Some s \<Rightarrow> JStr s)"

text \<open>\<^verbatim>\<open>{ item: <regex> }\<close>: a pattern matches string values only.\<close>

definition item_matches :: "(string \<Rightarrow> bool) \<Rightarrow> detection \<Rightarrow> bool" where
  "item_matches m x = (case item x of JStr s \<Rightarrow> m s | _ \<Rightarrow> False)"

text \<open>\<^verbatim>\<open>find({ item: new RegExp(item, 'i') }).sort({ timestamp: -1 }).toArray()\<close>\<close>

definition search :: "database \<Rightarrow> (string \<Rightarrow> bool) \<Rightarrow> js_error + detection list" where
  "search d m = find_sort_toArray d (item_matches m) (\<lambda>x. - timestamp x)"

definition search_rendered :: "variant \<Rightarrow> detection list \<Rightarrow> string \<Rightarrow> outcome" where
  "search_rendered V ds searchTerm =
     (case V of
        Part_000_first \<Rightarrow>
          Render ''index''
            [(''videos'', LDetections ds), (''message'', LVal JNull), (''error'', LVal JNull),
             (''searchTerm'', LVal (JStr searchTerm))]
      | _ \<Rightarrow> Render ''search'' [(''detections'', LDetections ds), (''searchTerm'', LVal (JStr searchTerm))])"

text \<open>
  The catch block. In \<^verbatim>\<open>index.js\<close> it builds the locals with
  \<^verbatim>\<open>searchTerm: item\<close>, but \<^verbatim>\<open>item\<close> is declared by \<^verbatim>\<open>const\<close> inside the try
  block and no outer scope declares it: evaluating the name throws a ReferenceError
  before \<^verbatim>\<open>res.render\<close> is called, and the error leaves the handler. The files of
  \<^verbatim>\<open>part_000\<close> read \<^verbatim>\<open>req.query.item\<close> instead.
\<close>

definition search_catch :: "variant \<Rightarrow> string option \<Rightarrow> outcome" where
  "search_catch V q =
     (case V of
        Index_js \<Rightarrow> Rejected ReferenceError
      | Part_000_first \<Rightarrow>
          Render ''index''
            [(''videos'', LDetections []), (''message'', LVal JNull),
             (''error'', LVal (JStr ''Search failed'')), (''searchTerm'', LVal (query_value q))]
      | Part_000_second \<Rightarrow>
          Render ''search''
            [(''detections'', LDetections []), (''searchTerm'', LVal (query_value q)),
             (''error'', LVal (JStr ''Search failed''))])"

definition get_search :: "variant \<Rightarrow> platform \<Rightarrow> database \<Rightarrow> string option \<Rightarrow> outcome" where
  "get_search V P d q =
     (case q of
        None \<Rightarrow> Redirect ''/''
      | Some searchTerm \<Rightarrow>
          if searchTerm = [] then Redirect ''/''
          else
            (case new_RegExp P searchTerm of
               Inl e \<Rightarrow> search_catch V q
             | Inr m \<Rightarrow>
                 (case search d m of
                    Inl e \<Rightarrow> search_catch V q
                  | Inr ds \<Rightarrow> search_rendered V ds searchTerm)))"

subsection \<open>The search the specification asks for\<close>




section \<open>Lists without repetition\<close>

text \<open>The elements of a list, each once, in the order in which they first appear.\<close>

definition first_appearance :: "'a list \<Rightarrow> 'a list" where
  "first_appearance xs = rev (remdups (rev xs))"

section \<open>\<^verbatim>\<open>GET /video/:videoId\<close>\<close>

text \<open>
  The store's order of numbers, for \<^verbatim>\<open>sort({ timestampSec: 1 })\<close>: NaN comes before
  every number.
\<close>

fun bson_number_key :: "jsnum \<Rightarrow> nat \<times> rat" where
  "bson_number_key NaN = (0, 0)"
| "bson_number_key NegInf = (1, 0)"
| "bson_number_key (Fin q) = (2, q)"
| "bson_number_key PosInf = (3, 0)"

text \<open>\<^verbatim>\<open>find({ videoId }).sort({ timestampSec: 1 }).toArray()\<close>\<close>

definition listByVideo :: "database \<Rightarrow> string \<Rightarrow> js_error + detection list" where
  "listByVideo d v =
     find_sort_toArray d (\<lambda>x. videoId x = JStr v) (\<lambda>x. bson_number_key (timestampSec x))"

text \<open>
  The storage bucket: its name, the names of its objects, the objects anyone may read,
  and whether the service answers.
\<close>

record bucket =
  bucket_name :: string
  objects :: "string list"
  public_objects :: "string list"
  storage_reachable :: bool

definition file_exists :: "bucket \<Rightarrow> string \<Rightarrow> js_error + bool" where
  "file_exists b f = (if storage_reachable b then Inr (f \<in> set (objects b)) else Inl StorageError)"

definition makePublic :: "bucket \<Rightarrow> string \<Rightarrow> js_error + bucket" where
  "makePublic b f =
     (if storage_reachable b then Inr (b\<lparr>public_objects := List.insert f (public_objects b)\<rparr>)
      else Inl StorageError)"

definition media_path :: "string \<Rightarrow> string" where
  "media_path v = ''videos/'' @ v @ ''.mp4''"

definition public_url :: "bucket \<Rightarrow> string \<Rightarrow> string" where
  "public_url b f = ''https://storage.googleapis.com/'' @ bucket_name b @ ''/'' @ f"

text \<open>
  Lines 109 to 118 of \<^verbatim>\<open>index.js\<close>: the URL of the video, or the empty string when
  the bucket has no such object; and the bucket afterwards.
\<close>

definition resolve :: "bucket \<Rightarrow> string \<Rightarrow> js_error + string \<times> bucket" where
  "resolve b v =
     (let fileName = media_path v in
      case file_exists b fileName of
        Inl e \<Rightarrow> Inl e
      | Inr exists \<Rightarrow>
          if exists then
            (case makePublic b fileName of
               Inl e \<Rightarrow> Inl e
             | Inr b' \<Rightarrow> Inr (public_url b fileName, b'))
          else Inr ('''', b))"

text \<open>
  The handler of \<^verbatim>\<open>index.js\<close> and of the second file of \<^verbatim>\<open>part_000\<close> (the first
  file has no such route).
\<close>

definition get_video :: "database \<Rightarrow> bucket \<Rightarrow> string \<Rightarrow> outcome \<times> bucket" where
  "get_video d b v =
     (case listByVideo d v of
        Inl e \<Rightarrow> (Redirect ''/?error=Failed to load video'', b)
      | Inr ds \<Rightarrow>
          (case ds of
             [] \<Rightarrow> (Redirect ''/?error=Video not found'', b)
           | first # rest \<Rightarrow>
               (case resolve b v of
                  Inl e \<Rightarrow> (Redirect ''/?error=Failed to load video'', b)
                | Inr (videoUrl, b') \<Rightarrow>
                    (Render ''video''
                       [(''videoId'', LVal (JStr v)), (''videoUrl'', LVal (JStr videoUrl)),
                        (''detections'', LDetections ds), (''cameraId'', LVal (cameraId first))],
                     b'))))"

section \<open>\<^verbatim>\<open>GET /\<close>\<close>

text \<open>
  \<^verbatim>\<open>videoMap\<close> is a plain object: its own properties in the order of their creation.
  Reading a name that is not an own property finds the properties every object
  inherits, and these are truthy.
\<close>

definition Object_prototype_keys :: "string list" where
  "Object_prototype_keys =
     [''constructor'', ''__defineGetter__'', ''__defineSetter__'', ''hasOwnProperty'',
      ''__lookupGetter__'', ''__lookupSetter__'', ''isPrototypeOf'', ''propertyIsEnumerable'',
      ''toString'', ''valueOf'', ''__proto__'', ''toLocaleString'']"

text \<open>
  The body of the \<^verbatim>\<open>forEach\<close>. With an own property \<open>key\<close> the detection is pushed
  to it. With none, and no inherited one, the video is created first. With an inherited one
  the test \<^verbatim>\<open>!videoMap[det.videoId]\<close> is false, nothing is created, and
  \<^verbatim>\<open>videoMap[det.videoId].detections\<close> is undefined: the push throws a TypeError.
\<close>

definition group_step ::
  "platform \<Rightarrow> (string \<times> video) list \<Rightarrow> detection \<Rightarrow> js_error + (string \<times> video) list" where
  "group_step P videoMap det =
     (let key = ToString P (videoId det) in
      case map_of videoMap key of
        Some v \<Rightarrow>
          Inr (map (\<lambda>(k, w). if k = key then (k, w\<lparr>v_detections := v_detections w @ [det]\<rparr>)
                              else (k, w)) videoMap)
      | None \<Rightarrow>
          if key \<in> set Object_prototype_keys then Inl TypeError
          else Inr (videoMap @
                 [(key, \<lparr>v_videoId = videoId det, v_cameraId = cameraId det, v_detections = [det]\<rparr>)]))"

fun forEach_group ::
  "platform \<Rightarrow> (string \<times> video) list \<Rightarrow> detection list \<Rightarrow> js_error + (string \<times> video) list" where
  "forEach_group P videoMap [] = Inr videoMap"
| "forEach_group P videoMap (det # dets) =
     (case group_step P videoMap det of
        Inl e \<Rightarrow> Inl e
      | Inr videoMap' \<Rightarrow> forEach_group P videoMap' dets)"

text \<open>
  A property name that is an array index: the decimal text, without a leading zero, of a
  number up to \<open>2\<^sup>3\<^sup>2 - 2\<close>.
\<close>

definition is_array_index :: "string \<Rightarrow> bool" where
  "is_array_index k \<longleftrightarrow>
     k \<noteq> [] \<and> list_all is_digit k \<and> (k = ''0'' \<or> take 1 k \<noteq> ''0'')
     \<and> digits_val 10 k \<le> 4294967294"

text \<open>
  \<^verbatim>\<open>Object.values\<close>: the array-index names first, in ascending numeric order, then
  the other names in the order of their creation.
\<close>

definition own_keys_order :: "string list \<Rightarrow> string list" where
  "own_keys_order ks =
     sort_key (digits_val 10) (filter is_array_index ks) @ filter (\<lambda>k. \<not> is_array_index k) ks"

definition Object_values :: "(string \<times> video) list \<Rightarrow> video list" where
  "Object_values videoMap =
     map snd
       (sort_key (\<lambda>p. digits_val 10 (fst p)) (filter (\<lambda>p. is_array_index (fst p)) videoMap)
        @ filter (\<lambda>p. \<not> is_array_index (fst p)) videoMap)"

definition dashboard_view :: "variant \<Rightarrow> string" where
  "dashboard_view V = (case V of Part_000_first \<Rightarrow> ''index'' | _ \<Rightarrow> ''dashboard'')"

definition dashboard_failed :: "variant \<Rightarrow> outcome" where
  "dashboard_failed V =
     Render (dashboard_view V)
       [(''videos'', LVideos []), (''message'', LVal JNull),
        (''error'', LVal (JStr ''Failed to load data''))]"

definition get_root ::
  "variant \<Rightarrow> platform \<Rightarrow> database \<Rightarrow> string option \<Rightarrow> string option \<Rightarrow> outcome" where
  "get_root V P d message error =
     (case listAll d of
        Inl e \<Rightarrow> dashboard_failed V
      | Inr ds \<Rightarrow>
          (case forEach_group P [] ds of
             Inl e \<Rightarrow> dashboard_failed V
           | Inr videoMap \<Rightarrow>
               Render (dashboard_view V)
                 [(''videos'', LVideos (Object_values videoMap)),
                  (''message'', LVal (query_value message)),
                  (''error'', LVal (query_value error))]))"

subsection \<open>The grouping the specification asks for\<close>

text \<open>
  Following the specification's words: one video for each videoId, in the order in
  which the videoIds first appear in the list; its cameraId is that of its first
  detection, its detections are those of the list, in the list's order.
\<close>

definition video_of :: "platform \<Rightarrow> detection list \<Rightarrow> string \<Rightarrow> video" where
  "video_of P ds k =
     (let mine = filter (\<lambda>x. ToString P (videoId x) = k) ds in
      \<lparr>v_videoId = (case mine of [] \<Rightarrow> JUndefined | x # _ \<Rightarrow> videoId x),
       v_cameraId = (case mine of [] \<Rightarrow> JUndefined | x # _ \<Rightarrow> cameraId x),
       v_detections = mine\<rparr>)"

definition grouped_by_first_appearance :: "platform \<Rightarrow> detection list \<Rightarrow> video list" where
  "grouped_by_first_appearance P ds =
     map (video_of P ds) (first_appearance (map (\<lambda>x. ToString P (videoId x)) ds))"

section \<open>\<^verbatim>\<open>GET /api/last-seen/:item\<close>\<close>

definition get_api_last_seen :: "platform \<Rightarrow> database \<Rightarrow> string \<Rightarrow> outcome" where
  "get_api_last_seen P d searchTerm =
     (case new_RegExp P searchTerm of
        Inl e \<Rightarrow> Json 500 [(''error'', JV (JStr ''Failed to search''))]
      | Inr m \<Rightarrow>
          (case search d m of
             Inl e \<Rightarrow> Json 500 [(''error'', JV (JStr ''Failed to search''))]
           | Inr ds \<Rightarrow>
               (case ds of
                  [] \<Rightarrow>
                    Json 200 [(''found'', JV (JBool False)),
                              (''message'', JV (JStr ''Item never detected''))]
                | x # rest \<Rightarrow> Json 200 [(''found'', JV (JBool True)), (''detection'', JDoc x)])))"

section \<open>\<^verbatim>\<open>GET /api/items\<close>\<close>

text \<open>
  \<^verbatim>\<open>distinct('item')\<close>: each value of the field once. The store leaves the order
  open; the model takes the order of first appearance.
\<close>

definition distinct_item :: "database \<Rightarrow> js_error + jsval list" where
  "distinct_item d =
     (if reachable d then Inr (first_appearance (map item (detections d))) else Inl MongoError)"

text \<open>
  \<^verbatim>\<open>items.sort()\<close> with no comparator: by the code units of the elements' strings,
  elements with equal strings in their order, undefined last.
\<close>

definition Array_sort :: "platform \<Rightarrow> jsval list \<Rightarrow> jsval list" where
  "Array_sort P xs =
     sort_key (ToString P) (filter (\<lambda>x. x \<noteq> JUndefined) xs) @ filter (\<lambda>x. x = JUndefined) xs"

definition get_api_items :: "platform \<Rightarrow> database \<Rightarrow> outcome" where
  "get_api_items P d =
     (case distinct_item d of
        Inl e \<Rightarrow> Json 500 [(''error'', JV (JStr ''Failed to get items''))]
      | Inr items \<Rightarrow> Json 200 [(''items'', JArray (Array_sort P items))])"

section \<open>\<^verbatim>\<open>POST /delete/:id\<close>\<close>

text \<open>
  \<^verbatim>\<open>new ObjectId(id)\<close>: 24 hexadecimal digits are an ObjectId. A string of 12
  characters, which older drivers read as 12 bytes, is outside the model. Any other
  string throws.
\<close>

definition new_ObjectId :: "string \<Rightarrow> (js_error + ObjectId) option" where
  "new_ObjectId s =
     (if length s = 24 \<and> list_all is_hex_digit s then Some (Inr (digits_val 16 s))
      else if length s = 12 then None
      else Some (Inl BSONError))"

fun remove_first :: "('a \<Rightarrow> bool) \<Rightarrow> 'a list \<Rightarrow> 'a list" where
  "remove_first q [] = []"
| "remove_first q (x # xs) = (if q x then xs else x # remove_first q xs)"

text \<open>\<^verbatim>\<open>deleteOne(q)\<close> removes the first document that \<open>q\<close> selects, if there is one.\<close>

definition deleteOne :: "database \<Rightarrow> (detection \<Rightarrow> bool) \<Rightarrow> js_error + database" where
  "deleteOne d q =
     (if reachable d then Inr (d\<lparr>detections := remove_first q (detections d)\<rparr>)
      else Inl MongoError)"

definition delete_failed :: outcome where
  "delete_failed =
     Json 200 [(''success'', JV (JBool False)), (''error'', JV (JStr ''Failed to delete''))]"

definition post_delete :: "database \<Rightarrow> string \<Rightarrow> outcome \<times> database" where
  "post_delete d idParam =
     (case new_ObjectId idParam of
        None \<Rightarrow> (NotModelled, d)
      | Some (Inl e) \<Rightarrow> (delete_failed, d)
      | Some (Inr oid) \<Rightarrow>
          (case deleteOne d (\<lambda>x. det_id x = oid) of
             Inl e \<Rightarrow> (delete_failed, d)
           | Inr d' \<Rightarrow> (Json 200 [(''success'', JV (JBool True))], d')))"

section \<open>Example data\<close>

text \<open>
  A platform for the examples: every date it reads is the same instant, its text of a
  number is that of 0, the only number the examples convert, and it refuses every
  pattern it is asked to read (no example has one).
\<close>

definition demo_platform :: platform where
  "demo_platform =
     \<lparr>number_to_string = (\<lambda>q. ''0''), new_Date = (\<lambda>v. 1700000000000),
      regexp_beyond = (\<lambda>s. Inl SyntaxError)\<rparr>"

definition empty_db :: database where
  "empty_db = \<lparr>detections = [], reachable = True\<rparr>"

definition body_ok :: body where
  "body_ok = \<lparr>body_cameraId = JStr ''cam1'', body_videoId = JStr ''v1'', body_item = JStr ''cup'',
     body_confidence = JStr ''0.87'', body_timestamp = JStr ''2024-01-01T00:00:00Z'',
     body_timestampSec = JNum (Fin 0)\<rparr>"

definition body_nan :: body where
  "body_nan = \<lparr>body_cameraId = JStr ''cam1'', body_videoId = JStr ''v1'', body_item = JStr ''cup'',
     body_confidence = JStr ''abc'', body_timestamp = JStr ''2024-01-01T00:00:00Z'',
     body_timestampSec = JNull\<rparr>"

definition example_detection ::
  "ObjectId \<Rightarrow> string \<Rightarrow> string \<Rightarrow> string \<Rightarrow> int \<Rightarrow> jsnum \<Rightarrow> detection" where
  "example_detection i cam vid it ts sec =
     \<lparr>det_id = i, cameraId = JStr cam, videoId = JStr vid, item = JStr it,
      confidence = Fin (9 / 10), timestamp = ts, timestampSec = sec, createdAt = ts\<rparr>"

text \<open>
  The scenario of the specification: A and B see a cup in video v1 at seconds 0 and 5,
  C sees a bottle in video v2; A is the oldest and C the latest. B spells its label
  with a capital.
\<close>

definition det_A :: detection where
  "det_A = example_detection 1 ''cam1'' ''v1'' ''cup'' 1000 (Fin 0)"

definition det_B :: detection where
  "det_B = example_detection 2 ''cam1'' ''v1'' ''Cup'' 2000 (Fin 5)"

definition det_C :: detection where
  "det_C = example_detection 3 ''cam2'' ''v2'' ''bottle'' 3000 (Fin 0)"

definition scenario_db :: database where
  "scenario_db = \<lparr>detections = [det_A, det_B, det_C], reachable = True\<rparr>"



definition det_paren :: detection where
  "det_paren = example_detection 5 ''cam1'' ''v3'' ''cup (red)'' 5000 (Fin 2)"

definition paren_db :: database where
  "paren_db = \<lparr>detections = [det_paren], reachable = True\<rparr>"

definition unreachable_db :: database where
  "unreachable_db = \<lparr>detections = [det_A], reachable = False\<rparr>"

definition demo_bucket :: bucket where
  "demo_bucket =
     \<lparr>bucket_name = ''memoryretrieve.appspot.com'', objects = [''videos/v2.mp4''],
      public_objects = [], storage_reachable = True\<rparr>"

text \<open>Two videos whose ids are array indices, the later detection in video 2.\<close>

definition det_two :: detection where
  "det_two = example_detection 6 ''cam1'' ''2'' ''cup'' 2000 (Fin 0)"

definition det_one :: detection where
  "det_one = example_detection 7 ''cam2'' ''1'' ''cup'' 1000 (Fin 0)"

definition index_db :: database where
  "index_db = \<lparr>detections = [det_one, det_two], reachable = True\<rparr>"

definition det_constructor :: detection where
  "det_constructor = example_detection 8 ''cam1'' ''constructor'' ''cup'' 1000 (Fin 0)"

definition prototype_db :: database where
  "prototype_db = \<lparr>detections = [det_A, det_constructor], reachable = True\<rparr>"

text \<open>The scenario's documents again, in another order and with A stored twice.\<close>

definition shuffled_db :: database where
  "shuffled_db = \<lparr>detections = [det_C, det_B, det_A, det_A\<lparr>det_id := 9\<rparr>], reachable = True\<rparr>"





section \<open>Ingestion\<close>

text \<open>
  C2. A payload in which one of cameraId, videoId, item, confidence or timestamp is
  absent or falsy (the empty string, 0, NaN, null, false), or in which timestampSec is
  undefined, is answered with status 400 and the store is unchanged. A payload whose
  timestampSec is 0 and whose other fields are truthy is not answered with status 400.
\<close>

theorem ingestion_rejects_missing_or_falsy:
  "(\<not> truthy (body_cameraId b) \<or> \<not> truthy (body_videoId b) \<or> \<not> truthy (body_item b)
      \<or> \<not> truthy (body_confidence b) \<or> \<not> truthy (body_timestamp b)
      \<or> body_timestampSec b = JUndefined
     \<longrightarrow> post_api_detection P now oid d b
           = (Json 400 [(''error'', JV (JStr ''Missing required fields''))], d))
   \<and> (truthy (body_cameraId b) \<and> truthy (body_videoId b) \<and> truthy (body_item b)
      \<and> truthy (body_confidence b) \<and> truthy (body_timestamp b)
      \<and> body_timestampSec b = JNum (Fin 0)
     \<longrightarrow> (\<forall>r. fst (post_api_detection P now oid d b) \<noteq> Json 400 r))"
  by (auto simp: post_api_detection_def split: sum.splits)

text \<open>
  The empty item, the confidence 0 and the missing timestampSec are rejected; the
  payload with timestampSec 0 is not.
\<close>

theorem ingestion_rejects_missing_or_falsy_witness:
  "post_api_detection demo_platform 5 1 empty_db (body_ok\<lparr>body_item := JStr ''''\<rparr>)
     = (Json 400 [(''error'', JV (JStr ''Missing required fields''))], empty_db)
   \<and> post_api_detection demo_platform 5 1 empty_db (body_ok\<lparr>body_confidence := JNum (Fin 0)\<rparr>)
     = (Json 400 [(''error'', JV (JStr ''Missing required fields''))], empty_db)
   \<and> post_api_detection demo_platform 5 1 empty_db (body_ok\<lparr>body_timestampSec := JUndefined\<rparr>)
     = (Json 400 [(''error'', JV (JStr ''Missing required fields''))], empty_db)
   \<and> (\<forall>r. fst (post_api_detection demo_platform 5 1 empty_db body_ok) \<noteq> Json 400 r)"
  using ingestion_rejects_missing_or_falsy [of "body_ok\<lparr>body_item := JStr ''''\<rparr>" demo_platform 5 1 empty_db]
    ingestion_rejects_missing_or_falsy [of "body_ok\<lparr>body_confidence := JNum (Fin 0)\<rparr>" demo_platform 5 1 empty_db]
    ingestion_rejects_missing_or_falsy [of "body_ok\<lparr>body_timestampSec := JUndefined\<rparr>" demo_platform 5 1 empty_db]
    ingestion_rejects_missing_or_falsy [of body_ok demo_platform 5 1 empty_db]
  by (simp add: body_ok_def)


subsection \<open>Rounded numbers\<close>

text \<open>
  The exponent that \<^const>\<open>binary64\<close> rounds at is the binary exponent of the number.
\<close>

lemma pow2_powi: "pow2 k = 2 powi k"
  by (simp add: pow2_def power_int_def inverse_eq_divide field_simps)

lemma pow2_pos: "0 < pow2 k"
  by (simp add: pow2_powi)

lemma pow2_add: "pow2 (j + k) = pow2 j * pow2 k"
  by (simp add: pow2_powi power_int_add)

lemma pow2_of_nat: "pow2 (int n) = 2 ^ n"
  by (simp add: pow2_def)

lemma pow2_bitlen:
  assumes "0 < a"
  shows "pow2 (bitlen a - 1) \<le> of_int a" and "of_int a < pow2 (bitlen a)"
proof -
  have b: "2 ^ nat (bitlen a - 1) \<le> a" "a < 2 ^ nat (bitlen a)" "1 \<le> bitlen a"
    using bitlen_bounds [OF assms] assms by (auto simp: bitlen_alt_def)
  have "pow2 (bitlen a - 1) = of_int (2 ^ nat (bitlen a - 1))"
    using b(3) by (simp add: pow2_def)
  also have "\<dots> \<le> of_int a" using b(1) by (simp only: of_int_le_iff)
  finally show "pow2 (bitlen a - 1) \<le> of_int a" .
  have "(of_int a :: rat) < of_int (2 ^ nat (bitlen a))" using b(2) by (simp only: of_int_less_iff)
  also have "\<dots> = pow2 (bitlen a)" using b(3) by (simp add: pow2_def)
  finally show "of_int a < pow2 (bitlen a)" .
qed

lemma floor_log2_bounds:
  assumes "0 < q"
  shows "pow2 (floor_log2 q) \<le> q" and "q < pow2 (floor_log2 q + 1)"
proof -
  obtain a b where ab: "quotient_of q = (a, b)" by (cases "quotient_of q")
  have b: "0 < b" using ab by (rule quotient_of_denom_pos)
  have q: "q = of_int a / of_int b" using ab by (rule quotient_of_div)
  have a: "0 < a" using assms b q by (simp add: zero_less_divide_iff)
  define e where "e = bitlen a - bitlen b"
  have B: "(0::rat) < of_int b" using b by simp
  have up: "q < pow2 (e + 1)"
  proof -
    have "of_int a < pow2 (bitlen a)" using pow2_bitlen(2) [OF a] .
    also have "pow2 (bitlen a) = pow2 (e + 1) * pow2 (bitlen b - 1)"
      by (simp add: pow2_add [symmetric] e_def)
    also have "\<dots> \<le> pow2 (e + 1) * of_int b"
      using pow2_bitlen(1) [OF b] pow2_pos [of "e + 1"] by simp
    finally show ?thesis using B by (simp add: q pos_divide_less_eq)
  qed
  have lo: "pow2 (e - 1) \<le> q"
  proof -
    have "pow2 (e - 1) * of_int b \<le> pow2 (e - 1) * pow2 (bitlen b)"
      using pow2_bitlen(2) [OF b] pow2_pos [of "e - 1"] by simp
    also have "\<dots> = pow2 (bitlen a - 1)"
      by (simp add: pow2_add [symmetric] e_def)
    also have "\<dots> \<le> of_int a" using pow2_bitlen(1) [OF a] .
    finally show ?thesis using B by (simp add: q pos_le_divide_eq)
  qed
  have fl: "floor_log2 q = (if q < pow2 e then e - 1 else e)"
    by (simp add: floor_log2_def ab e_def Let_def)
  show "pow2 (floor_log2 q) \<le> q" using lo by (simp add: fl)
  show "q < pow2 (floor_log2 q + 1)" using up by (simp add: fl)
qed






















text \<open>
  C10. Passing the check does not make the stored numbers numeric: the payload with
  confidence \<^verbatim>\<open>"abc"\<close> and timestampSec \<^verbatim>\<open>null\<close> is answered with success
  and the stored document has confidence NaN and timestampSec NaN.
\<close>

theorem accepted_payload_persists_NaN:
  "post_api_detection P now oid \<lparr>detections = [], reachable = True\<rparr> body_nan
     = (Json 200 [(''success'', JV (JBool True)), (''message'', JV (JStr ''Detection logged''))],
        \<lparr>detections =
           [\<lparr>det_id = oid, cameraId = JStr ''cam1'', videoId = JStr ''v1'', item = JStr ''cup'',
             confidence = NaN, timestamp = new_Date P (JStr ''2024-01-01T00:00:00Z''),
             timestampSec = NaN, createdAt = now\<rparr>],
         reachable = True\<rparr>)"
  by (simp add: post_api_detection_def body_nan_def insertOne_def
      parseFloat_def parseFloat_string_def unsigned_decimal_def
      parseInt_def parseInt_string_def unsigned_integer_def
      trim_start_def StrWhiteSpaceChar_def is_digit_def)

theorem accepted_payload_persists_NaN_witness:
  "map timestampSec (detections (snd (post_api_detection demo_platform 7 1
      \<lparr>detections = [], reachable = True\<rparr> body_nan))) = [NaN]
   \<and> map confidence (detections (snd (post_api_detection demo_platform 7 1
      \<lparr>detections = [], reachable = True\<rparr> body_nan))) = [NaN]"
  using accepted_payload_persists_NaN [of demo_platform 7 1] by simp

section \<open>Search\<close>

lemma parse_chars_plain:
  "\<forall>c\<in>set s. \<not> is_syntax_char c \<Longrightarrow>
   parse_chars s f st
     = parse_chars [] (f\<lparr>rterms := rev (map Chr s) @ rterms f,
                          last_term := (if s = [] then last_term f else Atom)\<rparr>) st"
proof (induction s arbitrary: f)
  case Nil
  then show ?case by simp
next
  case (Cons c cs)
  have c: "\<not> is_syntax_char c" and cs: "\<forall>c\<in>set cs. \<not> is_syntax_char c"
    using Cons.prems by simp_all
  have step: "parse_chars (c # cs) f st = parse_chars cs (push_term (Chr c) f) st"
    using c by (simp add: is_syntax_char_def)
  show ?case
    unfolding step Cons.IH [OF cs] by (simp add: push_term_def)
qed

lemma group_specifier_paren: "group_specifier s \<Longrightarrow> CHR ''('' \<in> set s"
  by (induction s rule: group_specifier.induct) auto

lemma plain_inside_fragment:
  assumes "\<forall>c\<in>set s. \<not> is_syntax_char c"
  shows "\<not> beyond_fragment s"
proof -
  have "\<not> group_specifier s"
    using assms group_specifier_paren [of s] by (auto simp: is_syntax_char_def)
  moreover have "\<not> list_ex (\<lambda>c. c \<in> set (CHR 0x5C # ''^$[]{}'')) s"
    using assms by (auto simp: list_ex_iff is_syntax_char_def)
  ultimately show ?thesis by (simp add: beyond_fragment_def)
qed

lemma new_RegExp_plain:
  assumes "\<forall>c\<in>set s. \<not> is_syntax_char c"
  shows "new_RegExp P s = Inr (regex_test (seq_of (map Chr s)))"
  using plain_inside_fragment [OF assms] parse_chars_plain [OF assms, of empty_frame "[]"]
  by (simp add: new_RegExp_def empty_frame_def close_frame_def)





lemma sort_key_descending:
  "sorted_wrt (\<lambda>a b. timestamp b \<le> timestamp a) (sort_key (\<lambda>x. - timestamp x) xs)"
proof -
  have "sorted (map (\<lambda>x. - timestamp x) (sort_key (\<lambda>x. - timestamp x) xs))"
    by (rule sorted_sort_key)
  then show ?thesis by (simp add: sorted_map)
qed


lemmas regex_eval =
  new_RegExp_def beyond_fragment_def empty_frame_def push_term_def close_frame_def
  seq_of_def quantify_def



text \<open>
  C3 fails in \<^verbatim>\<open>index.js\<close>: when the search throws, for an ill-formed pattern or
  for an unreachable store, the catch block itself throws a ReferenceError and no
  response is sent. The second file of \<^verbatim>\<open>part_000\<close> renders the flagged page on
  the same request.
\<close>

theorem search_failure_leaves_handler:
  "get_search Index_js P paren_db (Some ''('') = Rejected ReferenceError
   \<and> get_search Index_js P unreachable_db (Some ''cup'') = Rejected ReferenceError
   \<and> get_search Part_000_second P unreachable_db (Some ''cup'')
     = Render ''search''
         [(''detections'', LDetections []), (''searchTerm'', LVal (JStr ''cup'')),
          (''error'', LVal (JStr ''Search failed''))]"
proof -
  have bad: "new_RegExp P ''('' = Inl SyntaxError"
    by (simp add: regex_eval)
  have cup: "new_RegExp P ''cup'' = Inr (regex_test (seq_of (map Chr ''cup'')))"
    by (rule new_RegExp_plain) (simp add: is_syntax_char_def)
  have down: "search unreachable_db m = Inl MongoError" for m
    by (simp add: search_def find_sort_toArray_def unreachable_db_def)
  show ?thesis
    by (simp add: get_search_def bad cup down search_catch_def query_value_def)
qed

theorem search_failure_leaves_handler_witness:
  "\<exists>e. get_search Index_js demo_platform paren_db (Some ''('') = Rejected e"
  using search_failure_leaves_handler [of demo_platform] by simp

section \<open>The page of one video\<close>

lemma bson_number_key_Fin:
  "bson_number_key (Fin p) \<le> bson_number_key (Fin q) \<longleftrightarrow> p \<le> q"
  by simp

lemma bson_number_key_NaN:
  "bson_number_key n \<le> bson_number_key NaN \<longleftrightarrow> n = NaN"
  by (cases n) simp_all

text \<open>
  C5. On a reachable store, \<open>listByVideo v\<close> returns exactly the documents whose
  videoId is the string \<open>v\<close>, each as often as it is stored, in ascending order of
  timestampSec: of two documents whose timestampSec are numbers, the one with the
  smaller number comes first, and a document whose timestampSec is NaN comes before all
  others (the store's order of numbers). When no document has this videoId the handler
  redirects to \<^verbatim>\<open>/?error=Video not found\<close> and renders nothing.
\<close>

theorem listByVideo_selects_and_orders:
  assumes "reachable d"
  shows "\<exists>ds. listByVideo d v = Inr ds
           \<and> mset ds = filter_mset (\<lambda>x. videoId x = JStr v) (mset (detections d))
           \<and> sorted (map (\<lambda>x. bson_number_key (timestampSec x)) ds)
           \<and> sorted_wrt (\<lambda>x y. \<forall>p q. timestampSec x = Fin p \<and> timestampSec y = Fin q \<longrightarrow> p \<le> q) ds
           \<and> sorted_wrt (\<lambda>x y. timestampSec y = NaN \<longrightarrow> timestampSec x = NaN) ds
           \<and> ((\<forall>x\<in>set (detections d). videoId x \<noteq> JStr v)
                \<longrightarrow> get_video d b v = (Redirect ''/?error=Video not found'', b))"
proof -
  let ?k = "\<lambda>x. bson_number_key (timestampSec x)"
  let ?ds = "sort_key ?k (filter (\<lambda>x. videoId x = JStr v) (detections d))"
  have l: "listByVideo d v = Inr ?ds"
    using assms by (simp add: listByVideo_def find_sort_toArray_def)
  have m: "mset ?ds = filter_mset (\<lambda>x. videoId x = JStr v) (mset (detections d))"
    by simp
  have s: "sorted (map ?k ?ds)"
    by (rule sorted_sort_key)
  then have sw: "sorted_wrt (\<lambda>x y. ?k x \<le> ?k y) ?ds"
    by (simp only: sorted_map)
  have num: "sorted_wrt (\<lambda>x y. \<forall>p q. timestampSec x = Fin p \<and> timestampSec y = Fin q \<longrightarrow> p \<le> q) ?ds"
    by (rule sorted_wrt_mono_rel [OF _ sw]) (auto simp: bson_number_key_Fin)
  have nan: "sorted_wrt (\<lambda>x y. timestampSec y = NaN \<longrightarrow> timestampSec x = NaN) ?ds"
    by (rule sorted_wrt_mono_rel [OF _ sw]) (metis bson_number_key_NaN)
  have r: "get_video d b v = (Redirect ''/?error=Video not found'', b)"
    if "\<forall>x\<in>set (detections d). videoId x \<noteq> JStr v"
  proof -
    have "filter (\<lambda>x. videoId x = JStr v) (detections d) = []"
      using that by (simp add: filter_empty_conv)
    then show ?thesis
      using assms by (simp add: get_video_def listByVideo_def find_sort_toArray_def)
  qed
  show ?thesis
    using l m s num nan r by blast
qed

text \<open>
  The shuffled store holds B (second 5) before A and its copy (second 0): video v1 lists
  A, the copy, B. In the scenario the unknown video v9 redirects.
\<close>

theorem listByVideo_selects_and_orders_witness:
  "detections shuffled_db = [det_C, det_B, det_A, det_A\<lparr>det_id := 9\<rparr>]
   \<and> listByVideo shuffled_db ''v1'' = Inr [det_A, det_A\<lparr>det_id := 9\<rparr>, det_B]
   \<and> map timestampSec [det_A, det_A\<lparr>det_id := 9\<rparr>, det_B] = [Fin 0, Fin 0, Fin 5]
   \<and> get_video scenario_db demo_bucket ''v9'' = (Redirect ''/?error=Video not found'', demo_bucket)"
proof -
  have r: "reachable scenario_db" "reachable shuffled_db"
    by (simp_all add: scenario_db_def shuffled_db_def)
  have st: "detections shuffled_db = [det_C, det_B, det_A, det_A\<lparr>det_id := 9\<rparr>]"
    by (simp add: shuffled_db_def)
  have f: "filter (\<lambda>x. videoId x = JStr ''v1'') (detections shuffled_db)
      = [det_B, det_A, det_A\<lparr>det_id := 9\<rparr>]"
    by (simp add: shuffled_db_def det_A_def det_B_def det_C_def example_detection_def)
  have ts: "map timestampSec [det_A, det_A\<lparr>det_id := 9\<rparr>, det_B] = [Fin 0, Fin 0, Fin 5]"
    by (simp add: det_A_def det_B_def example_detection_def)
  have none: "\<forall>x\<in>set (detections scenario_db). videoId x \<noteq> JStr ''v9''"
    by (simp add: scenario_db_def det_A_def det_B_def det_C_def example_detection_def)
  have l: "listByVideo shuffled_db ''v1'' = Inr [det_A, det_A\<lparr>det_id := 9\<rparr>, det_B]"
    by code_simp
  from listByVideo_selects_and_orders [OF r(1), of "''v9''" demo_bucket] none
  have red: "get_video scenario_db demo_bucket ''v9'' = (Redirect ''/?error=Video not found'', demo_bucket)"
    by blast
  from listByVideo_selects_and_orders [OF r(2), of "''v1''" demo_bucket]
  obtain ds where "listByVideo shuffled_db ''v1'' = Inr ds"
    "sorted_wrt (\<lambda>x y. \<forall>p q. timestampSec x = Fin p \<and> timestampSec y = Fin q \<longrightarrow> p \<le> q) ds"
    by blast
  then show ?thesis using st l ts red by simp
qed

text \<open>
  C7. The media of a videoId is the object \<^verbatim>\<open>videos/{videoId}.mp4\<close> of the bucket.
  When the bucket is reachable and has the object, the object is made public, and the
  page of a video that has detections is rendered with these detections and the public
  URL of the object. When the bucket has no such object, no error is raised, the bucket
  is unchanged, and the page of a video that has detections is rendered with these
  detections and the empty URL.
\<close>

theorem media_locator_resolves:
  "media_path v = ''videos/'' @ v @ ''.mp4''
   \<and> public_url b (media_path v)
       = ''https://storage.googleapis.com/'' @ bucket_name b @ ''/videos/'' @ v @ ''.mp4''
   \<and> (storage_reachable b \<and> media_path v \<in> set (objects b) \<longrightarrow>
        resolve b v
          = Inr (public_url b (media_path v),
                 b\<lparr>public_objects := List.insert (media_path v) (public_objects b)\<rparr>)
        \<and> media_path v \<in> set (List.insert (media_path v) (public_objects b)))
   \<and> (storage_reachable b \<and> media_path v \<in> set (objects b) \<and> listByVideo d v = Inr (x # xs) \<longrightarrow>
        get_video d b v
          = (Render ''video''
               [(''videoId'', LVal (JStr v)),
                (''videoUrl'', LVal (JStr (public_url b (media_path v)))),
                (''detections'', LDetections (x # xs)), (''cameraId'', LVal (cameraId x))],
             b\<lparr>public_objects := List.insert (media_path v) (public_objects b)\<rparr>))
   \<and> (storage_reachable b \<and> media_path v \<notin> set (objects b) \<longrightarrow> resolve b v = Inr ('''', b))
   \<and> (storage_reachable b \<and> media_path v \<notin> set (objects b) \<and> listByVideo d v = Inr (x # xs) \<longrightarrow>
        get_video d b v
          = (Render ''video''
               [(''videoId'', LVal (JStr v)), (''videoUrl'', LVal (JStr '''')),
                (''detections'', LDetections (x # xs)), (''cameraId'', LVal (cameraId x))],
             b))"
proof (intro conjI impI)
  show "media_path v = ''videos/'' @ v @ ''.mp4''"
    by (simp add: media_path_def)
next
  show "public_url b (media_path v)
      = ''https://storage.googleapis.com/'' @ bucket_name b @ ''/videos/'' @ v @ ''.mp4''"
    by (simp add: public_url_def media_path_def)
next
  assume "storage_reachable b \<and> media_path v \<in> set (objects b)"
  then show "resolve b v
      = Inr (public_url b (media_path v),
             b\<lparr>public_objects := List.insert (media_path v) (public_objects b)\<rparr>)"
    by (simp add: resolve_def file_exists_def makePublic_def Let_def)
next
  show "media_path v \<in> set (List.insert (media_path v) (public_objects b))"
    by simp
next
  assume a: "storage_reachable b \<and> media_path v \<in> set (objects b) \<and> listByVideo d v = Inr (x # xs)"
  then have "resolve b v
      = Inr (public_url b (media_path v),
             b\<lparr>public_objects := List.insert (media_path v) (public_objects b)\<rparr>)"
    by (simp add: resolve_def file_exists_def makePublic_def Let_def)
  with a show "get_video d b v
      = (Render ''video''
           [(''videoId'', LVal (JStr v)),
            (''videoUrl'', LVal (JStr (public_url b (media_path v)))),
            (''detections'', LDetections (x # xs)), (''cameraId'', LVal (cameraId x))],
         b\<lparr>public_objects := List.insert (media_path v) (public_objects b)\<rparr>)"
    by (simp add: get_video_def)
next
  assume "storage_reachable b \<and> media_path v \<notin> set (objects b)"
  then show "resolve b v = Inr ('''', b)"
    by (simp add: resolve_def file_exists_def Let_def)
next
  assume a: "storage_reachable b \<and> media_path v \<notin> set (objects b) \<and> listByVideo d v = Inr (x # xs)"
  then have "resolve b v = Inr ('''', b)"
    by (simp add: resolve_def file_exists_def Let_def)
  with a show "get_video d b v
      = (Render ''video''
           [(''videoId'', LVal (JStr v)), (''videoUrl'', LVal (JStr '''')),
            (''detections'', LDetections (x # xs)), (''cameraId'', LVal (cameraId x))],
         b)"
    by (simp add: get_video_def)
qed

text \<open>
  The bucket holds the clip of v2 only: the page of v2 shows C with the URL of the clip,
  which is public afterwards; the page of v1 shows A and B with the empty URL, and the
  bucket is as before.
\<close>

theorem media_locator_resolves_witness:
  "get_video scenario_db demo_bucket ''v2''
     = (Render ''video''
          [(''videoId'', LVal (JStr ''v2'')),
           (''videoUrl'',
            LVal (JStr ''https://storage.googleapis.com/memoryretrieve.appspot.com/videos/v2.mp4'')),
           (''detections'', LDetections [det_C]), (''cameraId'', LVal (JStr ''cam2''))],
        demo_bucket\<lparr>public_objects := [''videos/v2.mp4'']\<rparr>)
   \<and> resolve demo_bucket ''v2''
     = Inr (''https://storage.googleapis.com/memoryretrieve.appspot.com/videos/v2.mp4'',
            demo_bucket\<lparr>public_objects := [''videos/v2.mp4'']\<rparr>)
   \<and> resolve demo_bucket ''v1'' = Inr ('''', demo_bucket)
   \<and> get_video scenario_db demo_bucket ''v1''
       = (Render ''video''
            [(''videoId'', LVal (JStr ''v1'')), (''videoUrl'', LVal (JStr '''')),
             (''detections'', LDetections [det_A, det_B]), (''cameraId'', LVal (JStr ''cam1''))],
          demo_bucket)"
proof -
  have l1: "listByVideo scenario_db ''v1'' = Inr (det_A # [det_B])"
    by code_simp
  have l2: "listByVideo scenario_db ''v2'' = Inr (det_C # [])"
    by code_simp
  have c: "cameraId det_A = JStr ''cam1''" "cameraId det_C = JStr ''cam2''"
    by (simp_all add: det_A_def det_C_def example_detection_def)
  have e: "storage_reachable demo_bucket" "media_path ''v2'' \<in> set (objects demo_bucket)"
    "media_path ''v1'' \<notin> set (objects demo_bucket)"
    by (simp_all add: demo_bucket_def media_path_def)
  have p: "List.insert (media_path ''v2'') (public_objects demo_bucket) = [''videos/v2.mp4'']"
    "public_url demo_bucket ''videos/v2.mp4''
       = ''https://storage.googleapis.com/memoryretrieve.appspot.com/videos/v2.mp4''"
    by (simp_all add: demo_bucket_def media_path_def public_url_def)
  from media_locator_resolves [of "''v1''" demo_bucket scenario_db det_A "[det_B]"]
    media_locator_resolves [of "''v2''" demo_bucket scenario_db det_C "[]"]
  show ?thesis
    using l1 l2 c e p by simp
qed

section \<open>The dashboard\<close>

lemma forEach_group_snoc:
  "forEach_group P m (ds @ [x])
     = (case forEach_group P m ds of Inl e \<Rightarrow> Inl e | Inr m' \<Rightarrow> group_step P m' x)"
  by (induction ds arbitrary: m) (simp_all split: sum.splits)

lemma first_appearance_snoc:
  "first_appearance (xs @ [x])
     = (if x \<in> set xs then first_appearance xs else first_appearance xs @ [x])"
  by (simp add: first_appearance_def)

lemma set_first_appearance: "set (first_appearance xs) = set xs"
  by (simp add: first_appearance_def)

lemma distinct_first_appearance: "distinct (first_appearance xs)"
  by (simp add: first_appearance_def)

lemma in_image_iff: "(f x \<in> f ` set ds) = (\<exists>y\<in>set ds. f y = f x)"
  by (metis image_iff)

lemma map_of_keyed:
  "map_of (map (\<lambda>k. (k, f k)) ks) k = (if k \<in> set ks then Some (f k) else None)"
  by (induction ks) auto

lemma video_of_snoc_other:
  "ToString P (videoId x) \<noteq> k \<Longrightarrow> video_of P (ds @ [x]) k = video_of P ds k"
  by (simp add: video_of_def)

lemma video_of_snoc_new:
  assumes "\<forall>y\<in>set ds. ToString P (videoId y) \<noteq> ToString P (videoId x)"
  shows "video_of P (ds @ [x]) (ToString P (videoId x))
     = \<lparr>v_videoId = videoId x, v_cameraId = cameraId x, v_detections = [x]\<rparr>"
proof -
  have "filter (\<lambda>y. ToString P (videoId y) = ToString P (videoId x)) ds = []"
    using assms by (simp add: filter_empty_conv)
  then show ?thesis by (simp add: video_of_def)
qed

lemma video_of_snoc_old:
  assumes "\<exists>y\<in>set ds. ToString P (videoId y) = ToString P (videoId x)"
  shows "video_of P (ds @ [x]) (ToString P (videoId x))
     = (video_of P ds (ToString P (videoId x)))
         \<lparr>v_detections := v_detections (video_of P ds (ToString P (videoId x))) @ [x]\<rparr>"
proof -
  have "filter (\<lambda>y. ToString P (videoId y) = ToString P (videoId x)) ds \<noteq> []"
    using assms by (simp add: filter_empty_conv)
  then show ?thesis
    by (cases "filter (\<lambda>y. ToString P (videoId y) = ToString P (videoId x)) ds")
       (simp_all add: video_of_def)
qed

lemma forEach_group_videos:
  assumes "\<forall>x\<in>set ds. ToString P (videoId x) \<notin> set Object_prototype_keys"
  shows "forEach_group P [] ds
     = Inr (map (\<lambda>k. (k, video_of P ds k))
              (first_appearance (map (\<lambda>x. ToString P (videoId x)) ds)))"
  using assms
proof (induction ds rule: rev_induct)
  case Nil
  then show ?case by (simp add: first_appearance_def)
next
  case (snoc x ds)
  let ?key = "\<lambda>x. ToString P (videoId x)"
  let ?K = "first_appearance (map ?key ds)"
  have IH: "forEach_group P [] ds = Inr (map (\<lambda>k. (k, video_of P ds k)) ?K)"
    using snoc by simp
  have ok: "?key x \<notin> set Object_prototype_keys"
    using snoc.prems by simp
  have setK: "set ?K = ?key ` set ds"
    by (simp add: set_first_appearance)
  have mem: "(?key x \<in> set ?K) = (\<exists>y\<in>set ds. ?key y = ?key x)"
    unfolding setK by (rule in_image_iff)
  have mem': "(?key x \<in> set (map ?key ds)) = (\<exists>y\<in>set ds. ?key y = ?key x)"
    using mem by (simp add: set_first_appearance)
  show ?case
  proof (cases "\<exists>y\<in>set ds. ?key y = ?key x")
    case True
    have K': "first_appearance (map ?key (ds @ [x])) = ?K"
      using True mem' by (simp add: first_appearance_snoc del: set_map)
    have upd: "map (\<lambda>(k, w). if k = ?key x then (k, w\<lparr>v_detections := v_detections w @ [x]\<rparr>) else (k, w))
          (map (\<lambda>k. (k, video_of P ds k)) ?K)
        = map (\<lambda>k. (k, video_of P (ds @ [x]) k)) ?K"
      using video_of_snoc_old [OF True] by (auto simp: video_of_snoc_other)
    have "group_step P (map (\<lambda>k. (k, video_of P ds k)) ?K) x
        = Inr (map (\<lambda>k. (k, video_of P (ds @ [x]) k)) ?K)"
      using True mem upd by (simp add: group_step_def Let_def map_of_keyed)
    then show ?thesis
      by (simp add: forEach_group_snoc IH K' del: map_append)
  next
    case False
    have K': "first_appearance (map ?key (ds @ [x])) = ?K @ [?key x]"
      using False mem' by (simp add: first_appearance_snoc del: set_map)
    have fresh: "\<forall>y\<in>set ds. ?key y \<noteq> ?key x"
      using False by simp
    have "\<forall>k\<in>set ?K. video_of P (ds @ [x]) k = video_of P ds k"
    proof
      fix k assume "k \<in> set ?K"
      then have "k \<noteq> ?key x" using False mem by auto
      then show "video_of P (ds @ [x]) k = video_of P ds k"
        by (simp add: video_of_snoc_other)
    qed
    then have same: "map (\<lambda>k. (k, video_of P (ds @ [x]) k)) ?K = map (\<lambda>k. (k, video_of P ds k)) ?K"
      by simp
    have rhs: "map (\<lambda>k. (k, video_of P (ds @ [x]) k)) (?K @ [?key x])
        = map (\<lambda>k. (k, video_of P ds k)) ?K
          @ [(?key x, \<lparr>v_videoId = videoId x, v_cameraId = cameraId x, v_detections = [x]\<rparr>)]"
      using same video_of_snoc_new [OF fresh] by simp
    have "group_step P (map (\<lambda>k. (k, video_of P ds k)) ?K) x
        = Inr (map (\<lambda>k. (k, video_of P ds k)) ?K
               @ [(?key x, \<lparr>v_videoId = videoId x, v_cameraId = cameraId x, v_detections = [x]\<rparr>)])"
      using False mem ok by (simp add: group_step_def Let_def map_of_keyed)
    then show ?thesis
      by (simp only: forEach_group_snoc IH K' rhs sum.case)
  qed
qed

lemma insort_key_keyed:
  "insort_key (\<lambda>p. c (fst p)) (k, f k) (map (\<lambda>k. (k, f k)) ks)
     = map (\<lambda>k. (k, f k)) (insort_key c k ks)"
  by (induction ks) simp_all

lemma sort_key_keyed:
  "sort_key (\<lambda>p. c (fst p)) (map (\<lambda>k. (k, f k)) ks) = map (\<lambda>k. (k, f k)) (sort_key c ks)"
  by (induction ks) (simp_all add: insort_key_keyed)

lemma Object_values_keyed:
  "Object_values (map (\<lambda>k. (k, f k)) ks) = map f (own_keys_order ks)"
  by (simp add: Object_values_def own_keys_order_def filter_map comp_def sort_key_keyed)

lemma own_keys_order_plain:
  "\<forall>k\<in>set ks. \<not> is_array_index k \<Longrightarrow> own_keys_order ks = ks"
  by (simp add: own_keys_order_def filter_empty_conv)

text \<open>
  C6, as the code has it. On a reachable store, \<open>listAll\<close> returns every document,
  latest timestamp first. When no videoId is the name of a property that every object
  inherits, the dashboard shows one video for each videoId (as a property name), with
  the videoId and the cameraId of its first detection in that list and with its
  detections in the order of that list. The videos whose ids are array indices come
  first, in ascending numeric order; the others follow in the order of their first
  appearance. When no videoId is an array index this is the order of first appearance.
\<close>

theorem dashboard_groups_videos:
  assumes "reachable d"
    and "\<forall>x\<in>set (detections d). ToString P (videoId x) \<notin> set Object_prototype_keys"
  shows "\<exists>ds. listAll d = Inr ds
           \<and> mset ds = mset (detections d)
           \<and> sorted_wrt (\<lambda>a b. timestamp b \<le> timestamp a) ds
           \<and> get_root V P d message error
               = Render (dashboard_view V)
                   [(''videos'',
                     LVideos (map (video_of P ds)
                       (own_keys_order (first_appearance (map (\<lambda>x. ToString P (videoId x)) ds))))),
                    (''message'', LVal (query_value message)),
                    (''error'', LVal (query_value error))]
           \<and> ((\<forall>x\<in>set (detections d). \<not> is_array_index (ToString P (videoId x))) \<longrightarrow>
                get_root V P d message error
                  = Render (dashboard_view V)
                      [(''videos'', LVideos (grouped_by_first_appearance P ds)),
                       (''message'', LVal (query_value message)),
                       (''error'', LVal (query_value error))])"
proof -
  let ?ds = "sort_key (\<lambda>x. - timestamp x) (detections d)"
  let ?keys = "first_appearance (map (\<lambda>x. ToString P (videoId x)) ?ds)"
  have l: "listAll d = Inr ?ds"
    using assms(1) by (simp add: listAll_def find_sort_toArray_def)
  have ok: "\<forall>x\<in>set ?ds. ToString P (videoId x) \<notin> set Object_prototype_keys"
    using assms(2) by simp
  have g: "get_root V P d message error
      = Render (dashboard_view V)
          [(''videos'', LVideos (map (video_of P ?ds) (own_keys_order ?keys))),
           (''message'', LVal (query_value message)),
           (''error'', LVal (query_value error))]"
    by (simp add: get_root_def l forEach_group_videos [OF ok] Object_values_keyed)
  have plain: "own_keys_order ?keys = ?keys"
    if "\<forall>x\<in>set (detections d). \<not> is_array_index (ToString P (videoId x))"
  proof (rule own_keys_order_plain)
    show "\<forall>k\<in>set ?keys. \<not> is_array_index k"
      using that by (auto simp: set_first_appearance)
  qed
  have g': "get_root V P d message error
      = Render (dashboard_view V)
          [(''videos'', LVideos (grouped_by_first_appearance P ?ds)),
           (''message'', LVal (query_value message)),
           (''error'', LVal (query_value error))]"
    if "\<forall>x\<in>set (detections d). \<not> is_array_index (ToString P (videoId x))"
    using g plain [OF that] by (simp add: grouped_by_first_appearance_def)
  have m: "mset ?ds = mset (detections d)" by simp
  show ?thesis
    using l m sort_key_descending [of "detections d"] g g' by blast
qed

text \<open>In the scenario the dashboard shows v2 with C, then v1 with B and A.\<close>

theorem dashboard_groups_videos_witness:
  "get_root Index_js demo_platform scenario_db None None
     = Render ''dashboard''
         [(''videos'',
           LVideos
             [\<lparr>v_videoId = JStr ''v2'', v_cameraId = JStr ''cam2'', v_detections = [det_C]\<rparr>,
              \<lparr>v_videoId = JStr ''v1'', v_cameraId = JStr ''cam1'', v_detections = [det_B, det_A]\<rparr>]),
          (''message'', LVal JUndefined), (''error'', LVal JUndefined)]"
proof -
  have r: "reachable scenario_db"
    by (simp add: scenario_db_def)
  have ok: "\<forall>x\<in>set (detections scenario_db).
      ToString demo_platform (videoId x) \<notin> set Object_prototype_keys"
    by code_simp
  have na: "\<forall>x\<in>set (detections scenario_db). \<not> is_array_index (ToString demo_platform (videoId x))"
    by code_simp
  have l: "listAll scenario_db = Inr [det_C, det_B, det_A]"
    by code_simp
  have g: "grouped_by_first_appearance demo_platform [det_C, det_B, det_A]
      = [\<lparr>v_videoId = JStr ''v2'', v_cameraId = JStr ''cam2'', v_detections = [det_C]\<rparr>,
         \<lparr>v_videoId = JStr ''v1'', v_cameraId = JStr ''cam1'', v_detections = [det_B, det_A]\<rparr>]"
    by code_simp
  from dashboard_groups_videos [OF r ok, of Index_js None None] na
  obtain ds where "listAll scenario_db = Inr ds"
    and "get_root Index_js demo_platform scenario_db None None
      = Render (dashboard_view Index_js)
          [(''videos'', LVideos (grouped_by_first_appearance demo_platform ds)),
           (''message'', LVal (query_value None)), (''error'', LVal (query_value None))]"
    by blast
  then show ?thesis
    using l g by (simp add: dashboard_view_def query_value_def)
qed

text \<open>
  C6 as stated fails: with the later detection in video 2 and the earlier one in video
  1, the order of first appearance is 2, 1, and the dashboard shows 1, 2. And one
  detection in a video named \<^verbatim>\<open>constructor\<close> leaves the dashboard with no video at
  all and the flag \<^verbatim>\<open>Failed to load data\<close>.
\<close>

theorem dashboard_order_is_not_first_appearance:
  "listAll index_db = Inr [det_two, det_one]
   \<and> grouped_by_first_appearance demo_platform [det_two, det_one]
       = [\<lparr>v_videoId = JStr ''2'', v_cameraId = JStr ''cam1'', v_detections = [det_two]\<rparr>,
          \<lparr>v_videoId = JStr ''1'', v_cameraId = JStr ''cam2'', v_detections = [det_one]\<rparr>]
   \<and> get_root Index_js demo_platform index_db None None
       = Render ''dashboard''
           [(''videos'',
             LVideos
               [\<lparr>v_videoId = JStr ''1'', v_cameraId = JStr ''cam2'', v_detections = [det_one]\<rparr>,
                \<lparr>v_videoId = JStr ''2'', v_cameraId = JStr ''cam1'', v_detections = [det_two]\<rparr>]),
            (''message'', LVal JUndefined), (''error'', LVal JUndefined)]
   \<and> get_root Index_js demo_platform prototype_db None None
       = Render ''dashboard''
           [(''videos'', LVideos []), (''message'', LVal JNull),
            (''error'', LVal (JStr ''Failed to load data''))]"
  by code_simp

section \<open>Deleting a detection\<close>

lemma remove_first_none:
  "\<forall>x\<in>set xs. \<not> q x \<Longrightarrow> remove_first q xs = xs"
  by (induction xs) simp_all

lemma remove_first_some:
  "\<exists>x\<in>set xs. q x \<Longrightarrow>
   \<exists>ys x zs. xs = ys @ x # zs \<and> q x \<and> (\<forall>y\<in>set ys. \<not> q y) \<and> remove_first q xs = ys @ zs"
proof (induction xs)
  case Nil
  then show ?case by simp
next
  case (Cons a xs)
  show ?case
  proof (cases "q a")
    case True
    then have "a # xs = [] @ a # xs \<and> q a \<and> (\<forall>y\<in>set []. \<not> q y) \<and> remove_first q (a # xs) = [] @ xs"
      by simp
    then show ?thesis by blast
  next
    case False
    then have "\<exists>x\<in>set xs. q x" using Cons.prems by auto
    then obtain ys x zs where
      "xs = ys @ x # zs" "q x" "\<forall>y\<in>set ys. \<not> q y" "remove_first q xs = ys @ zs"
      using Cons.IH by blast
    then have "a # xs = (a # ys) @ x # zs \<and> q x \<and> (\<forall>y\<in>set (a # ys). \<not> q y)
        \<and> remove_first q (a # xs) = (a # ys) @ zs"
      using False by simp
    then show ?thesis by blast
  qed
qed

lemma remove_first_distinct:
  "distinct (map f xs) \<Longrightarrow> remove_first (\<lambda>x. f x = k) xs = filter (\<lambda>x. f x \<noteq> k) xs"
proof (induction xs)
  case Nil
  then show ?case by simp
next
  case (Cons a xs)
  show ?case
  proof (cases "f a = k")
    case True
    have "f a \<notin> f ` set xs" using Cons.prems by simp
    then have "\<forall>x\<in>set xs. f x \<noteq> k" using True by (metis image_eqI)
    then have "filter (\<lambda>x. f x \<noteq> k) xs = xs" by (simp add: filter_id_conv)
    then show ?thesis using True by simp
  next
    case False
    then show ?thesis using Cons by simp
  qed
qed

text \<open>
  C8. On a reachable store, deleting by a well-formed id (24 hexadecimal digits) is
  answered with success whether or not a document has this id. When none has it the
  store is unchanged. When one has it, the first such document is removed and every
  other document stays, in its place; with the ids of the store distinct, the documents
  left are exactly those with another id.
\<close>

theorem delete_removes_that_record_only:
  assumes "reachable d" and "length idParam = 24" and "list_all is_hex_digit idParam"
  shows "(digits_val 16 idParam \<notin> set (map det_id (detections d)) \<longrightarrow>
            post_delete d idParam = (Json 200 [(''success'', JV (JBool True))], d))
       \<and> (digits_val 16 idParam \<in> set (map det_id (detections d)) \<longrightarrow>
            (\<exists>xs x ys. detections d = xs @ x # ys \<and> det_id x = digits_val 16 idParam
               \<and> (\<forall>y\<in>set xs. det_id y \<noteq> digits_val 16 idParam)
               \<and> post_delete d idParam
                   = (Json 200 [(''success'', JV (JBool True))], d\<lparr>detections := xs @ ys\<rparr>)))
       \<and> (distinct (map det_id (detections d)) \<longrightarrow>
            snd (post_delete d idParam)
              = d\<lparr>detections := filter (\<lambda>y. det_id y \<noteq> digits_val 16 idParam) (detections d)\<rparr>)"
proof -
  let ?oid = "digits_val 16 idParam"
  have oid: "new_ObjectId idParam = Some (Inr ?oid)"
    using assms(2,3) by (simp add: new_ObjectId_def)
  have post: "post_delete d idParam
      = (Json 200 [(''success'', JV (JBool True))],
         d\<lparr>detections := remove_first (\<lambda>x. det_id x = ?oid) (detections d)\<rparr>)"
    using assms(1) by (simp add: post_delete_def oid deleteOne_def)
  have a: "post_delete d idParam = (Json 200 [(''success'', JV (JBool True))], d)"
    if "?oid \<notin> set (map det_id (detections d))"
  proof -
    have "\<forall>x\<in>set (detections d). \<not> det_id x = ?oid" using that by force
    then have "remove_first (\<lambda>x. det_id x = ?oid) (detections d) = detections d"
      by (rule remove_first_none)
    then show ?thesis by (simp add: post)
  qed
  have b: "\<exists>xs x ys. detections d = xs @ x # ys \<and> det_id x = ?oid
      \<and> (\<forall>y\<in>set xs. det_id y \<noteq> ?oid)
      \<and> post_delete d idParam = (Json 200 [(''success'', JV (JBool True))], d\<lparr>detections := xs @ ys\<rparr>)"
    if "?oid \<in> set (map det_id (detections d))"
  proof -
    have "\<exists>x\<in>set (detections d). det_id x = ?oid" using that by force
    from remove_first_some [OF this] obtain xs x ys where
      "detections d = xs @ x # ys" "det_id x = ?oid" "\<forall>y\<in>set xs. \<not> det_id y = ?oid"
      "remove_first (\<lambda>x. det_id x = ?oid) (detections d) = xs @ ys"
      by blast
    then show ?thesis using post by auto
  qed
  have c: "snd (post_delete d idParam)
      = d\<lparr>detections := filter (\<lambda>y. det_id y \<noteq> ?oid) (detections d)\<rparr>"
    if "distinct (map det_id (detections d))"
    using remove_first_distinct [OF that, of ?oid] by (simp add: post)
  show ?thesis using a b c by blast
qed

text \<open>
  In the scenario no document has the id \<^verbatim>\<open>ff\<close>: success, nothing changes. B has
  the id 2: success, A and C are left.
\<close>

theorem delete_removes_that_record_only_witness:
  "post_delete scenario_db ''0000000000000000000000ff''
     = (Json 200 [(''success'', JV (JBool True))], scenario_db)
   \<and> post_delete scenario_db ''000000000000000000000002''
     = (Json 200 [(''success'', JV (JBool True))], scenario_db\<lparr>detections := [det_A, det_C]\<rparr>)"
proof -
  have r: "reachable scenario_db" by (simp add: scenario_db_def)
  have w: "length ''0000000000000000000000ff'' = 24" "list_all is_hex_digit ''0000000000000000000000ff''"
    "length ''000000000000000000000002'' = 24" "list_all is_hex_digit ''000000000000000000000002''"
    by (simp_all add: is_hex_digit_def)
  have v: "digits_val 16 ''0000000000000000000000ff'' = 255" "digits_val 16 ''000000000000000000000002'' = 2"
    by (simp_all add: digits_val_def hex_digit_val_def)
  have ids: "map det_id (detections scenario_db) = [1, 2, 3]"
    by (simp add: scenario_db_def det_A_def det_B_def det_C_def example_detection_def)
  have f: "filter (\<lambda>y. det_id y \<noteq> 2) (detections scenario_db) = [det_A, det_C]"
    by (simp add: scenario_db_def det_A_def det_B_def det_C_def example_detection_def)
  from delete_removes_that_record_only [OF r w(1,2)]
  have one: "post_delete scenario_db ''0000000000000000000000ff''
     = (Json 200 [(''success'', JV (JBool True))], scenario_db)"
    by (simp add: v ids)
  from delete_removes_that_record_only [OF r w(3,4)]
  have "(\<exists>xs x ys. post_delete scenario_db ''000000000000000000000002''
           = (Json 200 [(''success'', JV (JBool True))], scenario_db\<lparr>detections := xs @ ys\<rparr>))
      \<and> snd (post_delete scenario_db ''000000000000000000000002'')
           = scenario_db\<lparr>detections := [det_A, det_C]\<rparr>"
    unfolding v by (simp add: ids f) blast
  then have two: "post_delete scenario_db ''000000000000000000000002''
     = (Json 200 [(''success'', JV (JBool True))], scenario_db\<lparr>detections := [det_A, det_C]\<rparr>)"
    by auto
  show ?thesis using one two by simp
qed

section \<open>The item labels\<close>

lemma insort_key_map_general:
  "insort_key f (g a) (map g xs) = map g (insort_key (\<lambda>x. f (g x)) a xs)"
  by (induction xs) simp_all

lemma sort_key_map_general:
  "sort_key f (map g xs) = map g (sort_key (\<lambda>x. f (g x)) xs)"
  by (induction xs) (simp_all add: insort_key_map_general)

lemma all_strings:
  "\<forall>x\<in>set xs. \<exists>s. x = JStr s \<Longrightarrow> \<exists>ss. xs = map JStr ss"
proof (induction xs)
  case Nil
  then show ?case by simp
next
  case (Cons a xs)
  then obtain ss where ss: "xs = map JStr ss" by auto
  from Cons.prems obtain s where "a = JStr s" by auto
  then have "a # xs = map JStr (s # ss)" using ss by simp
  then show ?case by (rule exI)
qed

lemma Array_sort_strings: "Array_sort P (map JStr ss) = map JStr (sort ss)"
proof -
  have "filter (\<lambda>x. x \<noteq> JUndefined) (map JStr ss) = map JStr ss"
    by (simp add: filter_id_conv)
  moreover have "filter (\<lambda>x. x = JUndefined) (map JStr ss) = []"
    by (simp add: filter_empty_conv)
  ultimately show ?thesis
    by (simp add: Array_sort_def sort_key_map_general)
qed

lemma items_of_strings:
  assumes "reachable d" and "\<forall>x\<in>set (detections d). \<exists>s. item x = JStr s"
  shows "\<exists>xs. get_api_items P d = Json 200 [(''items'', JArray (map JStr xs))]
           \<and> sorted xs \<and> distinct xs
           \<and> set xs = {s. JStr s \<in> item ` set (detections d)}"
proof -
  let ?items = "first_appearance (map item (detections d))"
  have "\<forall>x\<in>set ?items. \<exists>s. x = JStr s"
    using assms(2) by (auto simp: set_first_appearance)
  then have "\<exists>ss. ?items = map JStr ss"
    by (rule all_strings)
  then obtain ss where ss: "?items = map JStr ss" ..
  have "distinct (map JStr ss)"
    using distinct_first_appearance [of "map item (detections d)"] ss by simp
  then have dss: "distinct ss"
    by (simp add: distinct_map)
  have "set (map JStr ss) = item ` set (detections d)"
    using set_first_appearance [of "map item (detections d)"] ss by simp
  then have sset: "set ss = {s. JStr s \<in> item ` set (detections d)}"
    by auto
  have "get_api_items P d = Json 200 [(''items'', JArray (map JStr (sort ss)))]"
    using assms(1) ss by (simp add: get_api_items_def distinct_item_def Array_sort_strings)
  then show ?thesis
    using dss sset by (intro exI [of _ "sort ss"]) simp
qed

text \<open>
  C9. On a reachable store whose item labels are strings, the items API answers with
  each label once, in ascending order. The answer depends on the set of labels only:
  a store with the same labels, in any order and with any repetitions, gets the same
  answer.
\<close>

theorem distinct_items_sorted_once:
  assumes "reachable d" and "\<forall>x\<in>set (detections d). \<exists>s. item x = JStr s"
  shows "\<exists>xs. get_api_items P d = Json 200 [(''items'', JArray (map JStr xs))]
           \<and> sorted xs \<and> distinct xs
           \<and> set xs = {s. JStr s \<in> item ` set (detections d)}
           \<and> (reachable d' \<and> (\<forall>x\<in>set (detections d'). \<exists>s. item x = JStr s)
                \<and> item ` set (detections d') = item ` set (detections d)
               \<longrightarrow> get_api_items P d' = get_api_items P d)"
proof -
  from items_of_strings [OF assms, of P] obtain xs where
    xs: "get_api_items P d = Json 200 [(''items'', JArray (map JStr xs))]"
      "sorted xs" "distinct xs" "set xs = {s. JStr s \<in> item ` set (detections d)}"
    by blast
  have "get_api_items P d' = get_api_items P d"
    if h: "reachable d' \<and> (\<forall>x\<in>set (detections d'). \<exists>s. item x = JStr s)
        \<and> item ` set (detections d') = item ` set (detections d)"
  proof -
    from h items_of_strings [of d' P] obtain ys where
      ys: "get_api_items P d' = Json 200 [(''items'', JArray (map JStr ys))]"
        "sorted ys" "distinct ys" "set ys = {s. JStr s \<in> item ` set (detections d')}"
      by blast
    have "set ys = set xs" using ys(4) xs(4) h by simp
    then have "ys = xs"
      using ys(2,3) xs(2,3) by (intro sorted_distinct_set_unique) simp_all
    then show ?thesis using xs(1) ys(1) by simp
  qed
  then show ?thesis using xs by blast
qed

text \<open>
  The scenario has the labels \<^verbatim>\<open>Cup\<close>, \<^verbatim>\<open>bottle\<close>, \<^verbatim>\<open>cup\<close>; stored in another
  order and with A twice, the answer is the same.
\<close>

theorem distinct_items_sorted_once_witness:
  "get_api_items demo_platform scenario_db
     = Json 200 [(''items'', JArray [JStr ''Cup'', JStr ''bottle'', JStr ''cup''])]
   \<and> get_api_items demo_platform shuffled_db = get_api_items demo_platform scenario_db"
proof -
  have r: "reachable scenario_db" "reachable shuffled_db"
    by (simp_all add: scenario_db_def shuffled_db_def)
  have s: "\<forall>x\<in>set (detections scenario_db). \<exists>s. item x = JStr s"
    "\<forall>x\<in>set (detections shuffled_db). \<exists>s. item x = JStr s"
    by (simp_all add: scenario_db_def shuffled_db_def det_A_def det_B_def det_C_def
        example_detection_def)
  have e: "item ` set (detections shuffled_db) = item ` set (detections scenario_db)"
    by (auto simp: scenario_db_def shuffled_db_def det_A_def det_B_def det_C_def
        example_detection_def)
  have v: "get_api_items demo_platform scenario_db
     = Json 200 [(''items'', JArray [JStr ''Cup'', JStr ''bottle'', JStr ''cup''])]"
    by code_simp
  from distinct_items_sorted_once [OF r(1) s(1), of demo_platform shuffled_db] r(2) s(2) e
  have "get_api_items demo_platform shuffled_db = get_api_items demo_platform scenario_db"
    by blast
  with v show ?thesis by simp
qed

end
